theory Spec2Isabelle
  imports Complex_Main "HOL-Library.Multiset"
begin

section \<open>JavaScript numbers and strings\<close>

text \<open>
  A JavaScript number is a finite value, one of the two infinities, or \<open>NaN\<close>.  Finite
  values are kept as exact rationals: the rounding of doubles, overflow to an infinity and
  the sign of zero are not part of this model.  The operations follow IEEE 754 on those
  values: \<open>NaN\<close> is absorbing, every comparison with \<open>NaN\<close> is false, and the undefined
  forms (infinity minus infinity, zero times infinity, zero by zero, infinity by infinity)
  give \<open>NaN\<close>.
\<close>

datatype number = Fin rat | PosInf | NegInf | NaN

instantiation number :: comm_monoid_add
begin

fun plus_number :: "number \<Rightarrow> number \<Rightarrow> number" where
  "plus_number NaN _ = NaN"
| "plus_number _ NaN = NaN"
| "plus_number (Fin a) (Fin b) = Fin (a + b)"
| "plus_number PosInf NegInf = NaN"
| "plus_number NegInf PosInf = NaN"
| "plus_number PosInf _ = PosInf"
| "plus_number _ PosInf = PosInf"
| "plus_number NegInf _ = NegInf"
| "plus_number _ NegInf = NegInf"

definition zero_number :: number where
  "zero_number = Fin 0"

instance
proof
  fix x y z :: number
  show "x + y = y + x"
    by (cases x; cases y) (simp_all add: add.commute)
  show "0 + x = x"
    unfolding zero_number_def by (cases x) simp_all
  show "x + y + z = x + (y + z)"
    by (cases x; cases y; cases z) (simp_all add: add.assoc)
qed

end

fun num_neg :: "number \<Rightarrow> number" where
  "num_neg (Fin a) = Fin (- a)"
| "num_neg PosInf = NegInf"
| "num_neg NegInf = PosInf"
| "num_neg NaN = NaN"

definition num_sub :: "number \<Rightarrow> number \<Rightarrow> number" where
  "num_sub a b = a + num_neg b"

definition signed_inf :: "bool \<Rightarrow> number" where
  "signed_inf positive = (if positive then PosInf else NegInf)"

fun num_mul :: "number \<Rightarrow> number \<Rightarrow> number" where
  "num_mul NaN _ = NaN"
| "num_mul _ NaN = NaN"
| "num_mul (Fin a) (Fin b) = Fin (a * b)"
| "num_mul (Fin a) PosInf = (if a = 0 then NaN else signed_inf (0 < a))"
| "num_mul (Fin a) NegInf = (if a = 0 then NaN else signed_inf (a < 0))"
| "num_mul PosInf (Fin b) = (if b = 0 then NaN else signed_inf (0 < b))"
| "num_mul NegInf (Fin b) = (if b = 0 then NaN else signed_inf (b < 0))"
| "num_mul PosInf PosInf = PosInf"
| "num_mul NegInf NegInf = PosInf"
| "num_mul PosInf NegInf = NegInf"
| "num_mul NegInf PosInf = NegInf"

fun num_div :: "number \<Rightarrow> number \<Rightarrow> number" where
  "num_div NaN _ = NaN"
| "num_div _ NaN = NaN"
| "num_div (Fin a) (Fin b) =
     (if b \<noteq> 0 then Fin (a / b) else if a = 0 then NaN else signed_inf (0 < a))"
| "num_div (Fin a) PosInf = Fin 0"
| "num_div (Fin a) NegInf = Fin 0"
| "num_div PosInf (Fin b) = signed_inf (0 \<le> b)"
| "num_div NegInf (Fin b) = signed_inf (b < 0)"
| "num_div _ _ = NaN"

fun num_less :: "number \<Rightarrow> number \<Rightarrow> bool" where
  "num_less NaN _ = False"
| "num_less _ NaN = False"
| "num_less (Fin a) (Fin b) = (a < b)"
| "num_less PosInf _ = False"
| "num_less _ NegInf = False"
| "num_less _ _ = True"

text \<open>Truthiness of a number: \<open>0\<close> and \<open>NaN\<close> are falsy.\<close>

fun num_truthy :: "number \<Rightarrow> bool" where
  "num_truthy (Fin a) = (a \<noteq> 0)"
| "num_truthy NaN = False"
| "num_truthy _ = True"

text \<open>
  A string is the list of its code units, here those up to 255.
  \<open>String.prototype.split\<close> with a one-character separator gives the pieces between the
  separators, the empty string giving one empty piece.
\<close>

fun split_on :: "char \<Rightarrow> string \<Rightarrow> string list" where
  "split_on c [] = [[]]"
| "split_on c (x # xs) =
     (if x = c then [] # split_on c xs
      else (case split_on c xs of
              [] \<Rightarrow> [[x]]
            | y # ys \<Rightarrow> (x # y) # ys))"

text \<open>
  \<open>Number(s)\<close> on a string follows the grammar of numeric strings: white space around the
  literal is dropped and the empty string is \<open>0\<close>; a literal is a binary, octal or
  hexadecimal integer with its prefix, or an optional sign followed by \<open>Infinity\<close> or by
  decimal digits with an optional fraction and an optional exponent; every other string is
  \<open>NaN\<close>.  White space beyond code unit 255 cannot occur in a string of this model.
\<close>

definition is_space :: "char \<Rightarrow> bool" where
  "is_space c = ((of_char c :: nat) \<in> {9, 10, 11, 12, 13, 32, 160})"

definition trim :: "string \<Rightarrow> string" where
  "trim s = rev (dropWhile is_space (rev (dropWhile is_space s)))"

definition is_digit :: "char \<Rightarrow> bool" where
  "is_digit c = (48 \<le> (of_char c :: nat) \<and> (of_char c :: nat) \<le> 57)"

definition digit_val :: "char \<Rightarrow> nat" where
  "digit_val c = of_char c - 48"

fun digits_value :: "nat \<Rightarrow> string \<Rightarrow> nat option" where
  "digits_value acc [] = Some acc"
| "digits_value acc (c # cs) =
     (if is_digit c then digits_value (10 * acc + digit_val c) cs else None)"

text \<open>The value of a digit in a radix up to 16, and of a string of such digits.\<close>

definition radix_digit :: "char \<Rightarrow> nat option" where
  "radix_digit c =
     (let n = of_char c :: nat
      in if 48 \<le> n \<and> n \<le> 57 then Some (n - 48)
         else if 97 \<le> n \<and> n \<le> 102 then Some (n - 87)
         else if 65 \<le> n \<and> n \<le> 70 then Some (n - 55)
         else None)"

fun radix_value :: "nat \<Rightarrow> nat \<Rightarrow> string \<Rightarrow> nat option" where
  "radix_value r acc [] = Some acc"
| "radix_value r acc (c # cs) =
     (case radix_digit c of
        None \<Rightarrow> None
      | Some d \<Rightarrow> if d < r then radix_value r (r * acc + d) cs else None)"

definition radix_literal :: "nat \<Rightarrow> string \<Rightarrow> number" where
  "radix_literal r ds =
     (if ds = [] then NaN
      else (case radix_value r 0 ds of Some n \<Rightarrow> Fin (of_nat n) | None \<Rightarrow> NaN))"

text \<open>What follows the digits of a decimal literal: nothing, or an exponent.\<close>

definition exponent_part :: "string \<Rightarrow> int option" where
  "exponent_part r =
     (case r of
        [] \<Rightarrow> Some 0
      | c # r' \<Rightarrow>
          if c = CHR ''e'' \<or> c = CHR ''E''
          then (let negative = (r' \<noteq> [] \<and> hd r' = CHR ''-'');
                    signed = (r' \<noteq> [] \<and> (hd r' = CHR ''-'' \<or> hd r' = CHR ''+''));
                    ds = (if signed then tl r' else r')
                in if ds = [] then None
                   else (case digits_value 0 ds of
                           None \<Rightarrow> None
                         | Some n \<Rightarrow> Some (if negative then - int n else int n)))
          else None)"

definition scale10 :: "rat \<Rightarrow> int \<Rightarrow> rat" where
  "scale10 v e = (if 0 \<le> e then v * 10 ^ nat e else v / 10 ^ nat (- e))"

definition unsigned_decimal :: "string \<Rightarrow> number" where
  "unsigned_decimal s =
     (if s = ''Infinity'' then PosInf
      else (let ip = takeWhile is_digit s;
                r1 = dropWhile is_digit s;
                dot = (r1 \<noteq> [] \<and> hd r1 = CHR ''.'');
                fp = (if dot then takeWhile is_digit (tl r1) else []);
                r2 = (if dot then dropWhile is_digit (tl r1) else r1)
            in if ip = [] \<and> fp = [] then NaN
               else (case exponent_part r2 of
                       None \<Rightarrow> NaN
                     | Some e \<Rightarrow>
                         (case digits_value 0 (ip @ fp) of
                            None \<Rightarrow> NaN
                          | Some n \<Rightarrow> Fin (scale10 (of_nat n) (e - int (length fp)))))))"

definition radix_of_prefix :: "string \<Rightarrow> nat option" where
  "radix_of_prefix t =
     (case t of
        z # p # ds \<Rightarrow>
          if z \<noteq> CHR ''0'' then None
          else if p = CHR ''x'' \<or> p = CHR ''X'' then Some 16
          else if p = CHR ''o'' \<or> p = CHR ''O'' then Some 8
          else if p = CHR ''b'' \<or> p = CHR ''B'' then Some 2
          else None
      | _ \<Rightarrow> None)"

definition Number :: "string \<Rightarrow> number" where
  "Number s =
     (let t = trim s
      in if t = [] then Fin 0
         else (case radix_of_prefix t of
                 Some r \<Rightarrow> radix_literal r (drop 2 t)
               | None \<Rightarrow>
                   if hd t = CHR ''-'' then num_neg (unsigned_decimal (tl t))
                   else if hd t = CHR ''+'' then unsigned_decimal (tl t)
                   else unsigned_decimal t))"

text \<open>
  Array destructuring \<open>const [h, m] = parts\<close>: a missing element is \<open>undefined\<close>, which every
  arithmetic operation converts to \<open>NaN\<close>.
\<close>

definition element :: "number list \<Rightarrow> nat \<Rightarrow> number" where
  "element xs i = (if i < length xs then xs ! i else NaN)"

section \<open>Durations\<close>

text \<open>\<open>calculateDuration\<close> (utils/timeGrouping): the length of a time slot in minutes.\<close>

definition calculateDuration :: "string \<Rightarrow> string \<Rightarrow> number" where
  "calculateDuration start end =
     (let p1 = map Number (split_on CHR '':'' start);
          h1 = element p1 0; m1 = element p1 1;
          p2 = map Number (split_on CHR '':'' end);
          h2 = element p2 0; m2 = element p2 1;
          minutes = num_sub (num_mul h2 (Fin 60) + m2) (num_mul h1 (Fin 60) + m1)
      in if num_less minutes (Fin 0) then minutes + Fin (24 * 60) else minutes)"

text \<open>\<open>getDurationInHours\<close> (components/Reports): the same computation, divided by 60.\<close>

definition getDurationInHours :: "string \<Rightarrow> string \<Rightarrow> number" where
  "getDurationInHours start end =
     (let p1 = map Number (split_on CHR '':'' start);
          h1 = element p1 0; m1 = element p1 1;
          p2 = map Number (split_on CHR '':'' end);
          h2 = element p2 0; m2 = element p2 1;
          minutes = num_sub (num_mul h2 (Fin 60) + m2) (num_mul h1 (Fin 60) + m1);
          minutes' = (if num_less minutes (Fin 0) then minutes + Fin (24 * 60) else minutes)
      in num_div minutes' (Fin 60))"

subsection \<open>Well-formed wall-clock strings, read as the specification reads them\<close>

text \<open>
  A well-formed time is five characters, two digits, a colon, two digits, with an hour below
  24 and a minute below 60.  \<open>hour_of\<close> and \<open>minute_of\<close> read the two fields by position.
\<close>

definition hour_of :: "string \<Rightarrow> int" where
  "hour_of s = int (10 * digit_val (s ! 0) + digit_val (s ! 1))"

definition minute_of :: "string \<Rightarrow> int" where
  "minute_of s = int (10 * digit_val (s ! 3) + digit_val (s ! 4))"

definition wellformed_time :: "string \<Rightarrow> bool" where
  "wellformed_time s =
     (length s = 5 \<and> is_digit (s ! 0) \<and> is_digit (s ! 1) \<and> s ! 2 = CHR '':'' \<and>
      is_digit (s ! 3) \<and> is_digit (s ! 4) \<and> hour_of s < 24 \<and> minute_of s < 60)"

definition duration_spec :: "string \<Rightarrow> string \<Rightarrow> int" where
  "duration_spec start end =
     (let d = (hour_of end * 60 + minute_of end) - (hour_of start * 60 + minute_of start)
      in if d < 0 then d + 1440 else d)"

section \<open>Dates\<close>

text \<open>
  A \<open>Date\<close> is its time value: milliseconds since the epoch, read in the local time zone,
  which is taken to have a fixed offset (no daylight-saving shifts).  Only valid dates are
  modelled.  The calendar fields are those of the proleptic Gregorian calendar.
\<close>

type_synonym Date = int

definition msPerDay :: int where
  "msPerDay = 86400000"

definition dayNumber :: "Date \<Rightarrow> int" where
  "dayNumber t = t div msPerDay"

text \<open>Year, month (1 to 12) and day of the month of a day number; day 0 is 1970-01-01.\<close>

definition civil_from_days :: "int \<Rightarrow> int \<times> int \<times> int" where
  "civil_from_days z0 =
     (let z = z0 + 719468;
          era = z div 146097;
          doe = z - era * 146097;
          yoe = (doe - doe div 1460 + doe div 36524 - doe div 146096) div 365;
          y = yoe + era * 400;
          doy = doe - (365 * yoe + yoe div 4 - yoe div 100);
          mp = (5 * doy + 2) div 153;
          d = doy - (153 * mp + 2) div 5 + 1;
          m = (if mp < 10 then mp + 3 else mp - 9)
      in (if m \<le> 2 then y + 1 else y, m, d))"

definition days_from_civil :: "int \<Rightarrow> int \<Rightarrow> int \<Rightarrow> int" where
  "days_from_civil y0 m d =
     (let y = (if m \<le> 2 then y0 - 1 else y0);
          era = y div 400;
          yoe = y - era * 400;
          doy = (153 * (if m > 2 then m - 3 else m + 9) + 2) div 5 + d - 1;
          doe = yoe * 365 + yoe div 4 - yoe div 100 + doy
      in era * 146097 + doe - 719468)"

text \<open>\<open>new Date(year, monthIndex, day)\<close>: local midnight, the month index counted from 0.\<close>

definition newDate :: "int \<Rightarrow> int \<Rightarrow> int \<Rightarrow> Date" where
  "newDate year monthIndex day = days_from_civil year (monthIndex + 1) day * msPerDay"

definition getFullYear :: "Date \<Rightarrow> int" where
  "getFullYear t = fst (civil_from_days (dayNumber t))"

text \<open>\<open>getMonth\<close> counts months from 0.\<close>

definition getMonth :: "Date \<Rightarrow> int" where
  "getMonth t = fst (snd (civil_from_days (dayNumber t))) - 1"

text \<open>\<open>getDay\<close>: the day of the week, 0 for Sunday; 1970-01-01 was a Thursday.\<close>

definition getDay :: "Date \<Rightarrow> int" where
  "getDay t = (dayNumber t + 4) mod 7"

definition isSameDay :: "Date \<Rightarrow> Date \<Rightarrow> bool" where
  "isSameDay a b = (dayNumber a = dayNumber b)"

definition isSameYear :: "Date \<Rightarrow> Date \<Rightarrow> bool" where
  "isSameYear a b = (getFullYear a = getFullYear b)"

text \<open>\<open>d.setDate(d.getDate() + n)\<close> moves a date by \<open>n\<close> days and keeps the time of day.\<close>

definition addDays :: "Date \<Rightarrow> int \<Rightarrow> Date" where
  "addDays d n = d + n * msPerDay"

text \<open>\<open>d.setHours(0, 0, 0, 0)\<close>: midnight of the same day.\<close>

definition startOfDay :: "Date \<Rightarrow> Date" where
  "startOfDay d = dayNumber d * msPerDay"

text \<open>\<open>getStartOfWeek\<close> (utils/timeGrouping): the Monday on or before a date, at midnight.\<close>

definition getStartOfWeek :: "Date \<Rightarrow> Date" where
  "getStartOfWeek date =
     (let day = getDay date;
          diff = (if day = 0 then - 6 else 1) - day
      in startOfDay (addDays date diff))"

section \<open>Entities\<close>

record TimeEntry =
  e_id :: string
  e_description :: string
  e_project :: string
  e_date :: Date
  e_startTime :: string
  e_endTime :: string
  e_billable :: "bool option"
  e_invoiced :: "bool option"

text \<open>Licenses, servers and domains have the same shape.\<close>

record CostItem =
  c_id :: string
  c_name :: string
  c_price :: number
  c_project :: string
  c_client :: string
  c_date :: Date
  c_invoiced :: bool

record Project =
  p_id :: string
  p_name :: string
  p_client :: "string option"
  p_color :: string
  p_active :: "bool option"
  p_rate :: "number option"

record Client =
  cl_id :: string
  cl_name :: string
  cl_color :: "string option"

section \<open>Sorting\<close>

text \<open>
  Strings are compared code unit by code unit, a proper prefix coming first; the result is
  \<open>-1\<close>, \<open>0\<close> or \<open>1\<close>.  This is the order of the relational operators on strings and of
  \<open>Array.prototype.sort\<close> without a comparison function (on characters of one code unit).
\<close>

fun codeUnitCompare :: "string \<Rightarrow> string \<Rightarrow> int" where
  "codeUnitCompare [] [] = 0"
| "codeUnitCompare [] (y # ys) = - 1"
| "codeUnitCompare (x # xs) [] = 1"
| "codeUnitCompare (x # xs) (y # ys) =
     (if (of_char x :: nat) < of_char y then - 1
      else if (of_char y :: nat) < of_char x then 1
      else codeUnitCompare xs ys)"

text \<open>
  \<open>localeCompare\<close> depends on the collation of the runtime.  It is modelled by the same
  comparison, with which the usual collations agree on strings of lower-case ASCII letters.
\<close>

definition localeCompare :: "string \<Rightarrow> string \<Rightarrow> int" where
  "localeCompare a b = codeUnitCompare a b"

text \<open>
  \<open>Array.prototype.sort\<close> with a comparison function is a stable sort: \<open>a\<close> stays before
  \<open>b\<close> unless the function returns a positive number for them.
\<close>

fun insert_sorted :: "('a \<Rightarrow> 'a \<Rightarrow> int) \<Rightarrow> 'a \<Rightarrow> 'a list \<Rightarrow> 'a list" where
  "insert_sorted cmp x [] = [x]"
| "insert_sorted cmp x (y # ys) =
     (if cmp x y \<le> 0 then x # y # ys else y # insert_sorted cmp x ys)"

fun array_sort :: "('a \<Rightarrow> 'a \<Rightarrow> int) \<Rightarrow> 'a list \<Rightarrow> 'a list" where
  "array_sort cmp [] = []"
| "array_sort cmp (x # xs) = insert_sorted cmp x (array_sort cmp xs)"

section \<open>Week and day grouping\<close>

record DayGroup =
  dg_date :: Date
  dg_duration :: number
  dg_entries :: "TimeEntry list"

record WeekGroup =
  wg_start :: Date
  wg_end :: Date
  wg_duration :: number
  wg_days :: "DayGroup list"

text \<open>The comparison function of step 1: date descending, then start time descending.\<close>

definition entryCompare :: "TimeEntry \<Rightarrow> TimeEntry \<Rightarrow> int" where
  "entryCompare a b =
     (let dateDiff = e_date b - e_date a
      in if dateDiff \<noteq> 0 then dateDiff
         else localeCompare (e_startTime b) (e_startTime a))"

text \<open>
  The body of the \<open>forEach\<close>, for the day groups of one week: the first day group on the
  entry's calendar day receives the entry, and a new one is pushed at the end when there is
  none.
\<close>

fun addToDays :: "TimeEntry \<Rightarrow> number \<Rightarrow> DayGroup list \<Rightarrow> DayGroup list" where
  "addToDays entry duration [] =
     [\<lparr>dg_date = e_date entry, dg_duration = 0 + duration, dg_entries = [entry]\<rparr>]"
| "addToDays entry duration (d # ds) =
     (if isSameDay (dg_date d) (e_date entry)
      then d\<lparr>dg_entries := dg_entries d @ [entry], dg_duration := dg_duration d + duration\<rparr> # ds
      else d # addToDays entry duration ds)"

text \<open>
  The same for the weeks: the first week group that starts on the entry's Monday is
  updated, and a new one is pushed at the end when there is none.
\<close>

fun addToWeeks :: "TimeEntry \<Rightarrow> WeekGroup list \<Rightarrow> WeekGroup list" where
  "addToWeeks entry [] =
     (let entryDate = e_date entry;
          weekStart = getStartOfWeek entryDate;
          weekEnd = addDays weekStart 6;
          duration = calculateDuration (e_startTime entry) (e_endTime entry)
      in [\<lparr>wg_start = weekStart, wg_end = weekEnd, wg_duration = 0 + duration,
           wg_days = addToDays entry duration []\<rparr>])"
| "addToWeeks entry (w # ws) =
     (let entryDate = e_date entry;
          weekStart = getStartOfWeek entryDate;
          duration = calculateDuration (e_startTime entry) (e_endTime entry)
      in if isSameDay (wg_start w) weekStart
         then w\<lparr>wg_days := addToDays entry duration (wg_days w),
                wg_duration := wg_duration w + duration\<rparr> # ws
         else w # addToWeeks entry ws)"

definition groupEntriesByWeek :: "TimeEntry list \<Rightarrow> WeekGroup list" where
  "groupEntriesByWeek entries =
     (let sorted = array_sort entryCompare entries
      in foldl (\<lambda>weeks entry. addToWeeks entry weeks) [] sorted)"

section \<open>Reports: available projects\<close>

text \<open>\<open>p.client || dflt\<close>: an absent or empty client name is falsy.\<close>

definition client_or :: "string option \<Rightarrow> string \<Rightarrow> string" where
  "client_or c dflt = (case c of None \<Rightarrow> dflt | Some n \<Rightarrow> if n = [] then dflt else n)"

text \<open>\<open>!p.client\<close>\<close>

definition no_client :: "Project \<Rightarrow> bool" where
  "no_client p = (case p_client p of None \<Rightarrow> True | Some n \<Rightarrow> n = [])"

text \<open>The comparison function of \<open>availableProjects\<close>: client name, then project name.\<close>

definition projectCompare :: "Project \<Rightarrow> Project \<Rightarrow> int" where
  "projectCompare a b =
     (let cA = client_or (p_client a) ''zz'';
          cB = client_or (p_client b) ''zz''
      in if cA \<noteq> cB then localeCompare cA cB
         else localeCompare (p_name a) (p_name b))"

text \<open>\<open>availableProjects\<close> as a value: the list the memo holds.\<close>

definition availableProjects :: "string \<Rightarrow> Project list \<Rightarrow> Client list \<Rightarrow> Project list" where
  "availableProjects selectedClientId projects clients =
     (let filtered =
            (if selectedClientId = ''all'' then projects
             else if selectedClientId = ''no-client'' then filter no_client projects
             else (case find (\<lambda>c. cl_id c = selectedClientId) clients of
                     Some client \<Rightarrow> filter (\<lambda>p. p_client p = Some (cl_name client)) projects
                   | None \<Rightarrow> []))
      in array_sort projectCompare filtered)"

subsection \<open>The same computation on a store of arrays\<close>

text \<open>
  Arrays are objects: \<open>filter\<close> and the literal \<open>[]\<close> make a new array, \<open>sort\<close> sorts the
  array it is called on and returns that same array.  A store maps references to the
  contents of project arrays; \<open>h_next\<close> is the next unused reference.
\<close>

type_synonym ref = nat

record Heap =
  h_arrays :: "ref \<Rightarrow> Project list"
  h_next :: ref

definition heap_new :: "Project list \<Rightarrow> Heap \<Rightarrow> ref \<times> Heap" where
  "heap_new xs h =
     (h_next h, h\<lparr>h_arrays := (h_arrays h)(h_next h := xs), h_next := Suc (h_next h)\<rparr>)"

definition heap_filter :: "(Project \<Rightarrow> bool) \<Rightarrow> ref \<Rightarrow> Heap \<Rightarrow> ref \<times> Heap" where
  "heap_filter P r h = heap_new (filter P (h_arrays h r)) h"

definition heap_sort :: "(Project \<Rightarrow> Project \<Rightarrow> int) \<Rightarrow> ref \<Rightarrow> Heap \<Rightarrow> ref \<times> Heap" where
  "heap_sort cmp r h = (r, h\<lparr>h_arrays := (h_arrays h)(r := array_sort cmp (h_arrays h r))\<rparr>)"

text \<open>
  \<open>projects\<close> is the reference of the caller's array.  The result is the reference of the
  array returned and the store after the call.
\<close>

definition availableProjects_heap :: "string \<Rightarrow> ref \<Rightarrow> Client list \<Rightarrow> Heap \<Rightarrow> ref \<times> Heap" where
  "availableProjects_heap selectedClientId projects clients h =
     (let (filtered, h') =
            (if selectedClientId = ''all'' then (projects, h)
             else if selectedClientId = ''no-client'' then heap_filter no_client projects h
             else (case find (\<lambda>c. cl_id c = selectedClientId) clients of
                     Some client \<Rightarrow> heap_filter (\<lambda>p. p_client p = Some (cl_name client)) projects h
                   | None \<Rightarrow> heap_new [] h))
      in heap_sort projectCompare filtered h')"

section \<open>Reports: monthly aggregation\<close>

datatype InvoiceFilter = All | Invoiced | NotInvoiced

text \<open>
  A \<open>Set\<close> of project ids is kept as the list of its elements; \<open>has\<close> is membership.
  \<open>activeProjectIds\<close> keeps the selected ids that are ids of available projects.
\<close>

definition activeProjectIds :: "Project list \<Rightarrow> string list \<Rightarrow> string list" where
  "activeProjectIds available selectedProjectIds =
     (let validIds = map p_id available
      in filter (\<lambda>i. i \<in> set validIds) selectedProjectIds)"

text \<open>The invoice test of the aggregation: \<open>if\<close> \dots \<open>else if\<close>.\<close>

definition matchesInvoice :: "InvoiceFilter \<Rightarrow> bool \<Rightarrow> bool" where
  "matchesInvoice invoiceFilter isInvoiced =
     (if invoiceFilter = Invoiced then isInvoiced
      else if invoiceFilter = NotInvoiced then \<not> isInvoiced
      else True)"

definition yearEntries ::
  "TimeEntry list \<Rightarrow> int \<Rightarrow> string list \<Rightarrow> InvoiceFilter \<Rightarrow> TimeEntry list" where
  "yearEntries entries selectedYear activeIds invoiceFilter =
     filter (\<lambda>e.
        let matchesYear = isSameYear (e_date e) (newDate selectedYear 0 1);
            matchesProject = e_project e \<in> set activeIds
        in matchesYear \<and> matchesProject \<and> matchesInvoice invoiceFilter (e_invoiced e = Some True))
       entries"

text \<open>\<open>project?.rate || 0\<close>: no project, no rate, a rate of \<open>0\<close> and \<open>NaN\<close> all give \<open>0\<close>.\<close>

definition rate_of :: "Project option \<Rightarrow> number" where
  "rate_of project =
     (case project of
        None \<Rightarrow> Fin 0
      | Some p \<Rightarrow> (case p_rate p of
                    None \<Rightarrow> Fin 0
                  | Some r \<Rightarrow> if num_truthy r then r else Fin 0))"

text \<open>The callback of the \<open>hoursAmount\<close> reduction; \<open>entry.billable\<close> is tested for truthiness.\<close>

definition hoursAmountStep :: "Project list \<Rightarrow> number \<Rightarrow> TimeEntry \<Rightarrow> number" where
  "hoursAmountStep projects acc entry =
     (let project = find (\<lambda>p. p_id p = e_project entry) projects;
          hours = getDurationInHours (e_startTime entry) (e_endTime entry);
          rate = rate_of project
      in acc + (if e_billable entry = Some True then num_mul hours rate else Fin 0))"

text \<open>
  The amount of one category of cost items in one month; the source repeats this text for
  licenses, servers and domains.
\<close>

definition costAmount ::
  "CostItem list \<Rightarrow> int \<Rightarrow> Date \<Rightarrow> string list \<Rightarrow> InvoiceFilter \<Rightarrow> number" where
  "costAmount items month yearStart activeIds invoiceFilter =
     foldl (\<lambda>acc l. acc + c_price l) 0
       (filter (\<lambda>l.
          let matchesMonth = (getMonth (c_date l) = month \<and> isSameYear (c_date l) yearStart);
              matchesProject = c_project l \<in> set activeIds
          in matchesMonth \<and> matchesProject \<and> matchesInvoice invoiceFilter (c_invoiced l))
         items)"

text \<open>
  One element of \<open>monthlyData\<close>.  The month is kept as its index, 0 to 11, which is what
  \<open>getMonth\<close> gives for the twelve dates of \<open>eachMonthOfInterval\<close>.  The per-project breakdown
  and the legend are not part of this model.
\<close>

record MonthlyData =
  md_month :: int
  md_totalHours :: number
  md_hoursAmount :: number
  md_licenseAmount :: number
  md_serverAmount :: number
  md_domainAmount :: number
  md_totalAmount :: number
  md_entryCount :: nat

definition monthData ::
  "TimeEntry list \<Rightarrow> Project list \<Rightarrow> CostItem list \<Rightarrow> CostItem list \<Rightarrow> CostItem list \<Rightarrow>
   Date \<Rightarrow> string list \<Rightarrow> InvoiceFilter \<Rightarrow> int \<Rightarrow> MonthlyData" where
  "monthData yearEntries' projects licenses servers domains yearStart activeIds invoiceFilter month =
     (let monthEntries = filter (\<lambda>e. getMonth (e_date e) = month) yearEntries';
          totalHours = foldl (\<lambda>acc entry.
              acc + getDurationInHours (e_startTime entry) (e_endTime entry)) 0 monthEntries;
          hoursAmount = foldl (hoursAmountStep projects) 0 monthEntries;
          licenseAmount = costAmount licenses month yearStart activeIds invoiceFilter;
          serverAmount = costAmount servers month yearStart activeIds invoiceFilter;
          domainAmount = costAmount domains month yearStart activeIds invoiceFilter
      in \<lparr>md_month = month, md_totalHours = totalHours, md_hoursAmount = hoursAmount,
          md_licenseAmount = licenseAmount, md_serverAmount = serverAmount,
          md_domainAmount = domainAmount,
          md_totalAmount = hoursAmount + licenseAmount + serverAmount + domainAmount,
          md_entryCount = length monthEntries\<rparr>)"

record ProcessedData =
  monthlyData :: "MonthlyData list"
  grandTotalHours :: number
  grandTotalAmount :: number
  relevantProjectIds :: "string list"
  filteredProjects :: "Project list"

definition processedData ::
  "int \<Rightarrow> Project list \<Rightarrow> string list \<Rightarrow> InvoiceFilter \<Rightarrow> TimeEntry list \<Rightarrow> Project list \<Rightarrow>
   CostItem list \<Rightarrow> CostItem list \<Rightarrow> CostItem list \<Rightarrow> ProcessedData" where
  "processedData selectedYear available selectedProjectIds invoiceFilter entries projects
     licenses servers domains =
     (let yearStart = newDate selectedYear 0 1;
          months = [0, 1, 2, 3, 4, 5, 6, 7, 8, 9, 10, 11];
          activeIds = activeProjectIds available selectedProjectIds;
          yearEntries' = yearEntries entries selectedYear activeIds invoiceFilter;
          monthly = map (monthData yearEntries' projects licenses servers domains yearStart
                           activeIds invoiceFilter) months;
          totalHours = foldl (\<lambda>acc m. acc + md_totalHours m) 0 monthly;
          totalAmount = foldl (\<lambda>acc m. acc + md_totalAmount m) 0 monthly
      in \<lparr>monthlyData = monthly, grandTotalHours = totalHours, grandTotalAmount = totalAmount,
          relevantProjectIds = activeIds, filteredProjects = available\<rparr>)"

section \<open>Reports: ledger export\<close>

text \<open>
  \<open>handleExport\<close> up to the text it writes: the client blocks in the order they are
  written, each with its project blocks, each of those with its entry lines and the total
  of its last line, and the grand total of the last line of the document.  The formatting
  of dates and numbers is not part of this model.
\<close>

record ProjectBlock =
  pb_name :: string
  pb_entries :: "TimeEntry list"
  pb_total :: number

record ClientBlock =
  cb_name :: string
  cb_projects :: "ProjectBlock list"

record Ledger =
  lg_clients :: "ClientBlock list"
  lg_grandTotal :: number

text \<open>The invoice test of the export: two \<open>if\<close>s in a row.\<close>

definition matchesInvoiceExport :: "InvoiceFilter \<Rightarrow> bool \<Rightarrow> bool" where
  "matchesInvoiceExport invoiceFilter isInvoiced =
     (let m0 = True;
          m1 = (if invoiceFilter = Invoiced then isInvoiced else m0);
          m2 = (if invoiceFilter = NotInvoiced then \<not> isInvoiced else m1)
      in m2)"

definition exportEntries ::
  "TimeEntry list \<Rightarrow> int \<Rightarrow> string list \<Rightarrow> InvoiceFilter \<Rightarrow> TimeEntry list" where
  "exportEntries entries selectedYear relevantIds invoiceFilter =
     array_sort (\<lambda>a b. e_date a - e_date b)
       (filter (\<lambda>e.
          let matchesYear = isSameYear (e_date e) (newDate selectedYear 0 1);
              matchesProject = e_project e \<in> set relevantIds
          in matchesYear \<and> matchesProject \<and>
             matchesInvoiceExport invoiceFilter (e_invoiced e = Some True))
         entries)"

text \<open>
  An object used as a dictionary is the list of its keys and values in the order the keys
  were added; keys that name a property of \<open>Object.prototype\<close> are not considered.
  \<open>pushUnder\<close> is \<open>if (!obj[k]) obj[k] = init\<close> followed by an update of \<open>obj[k]\<close>.
\<close>

fun pushUnder :: "string \<Rightarrow> 'v \<Rightarrow> ('v \<Rightarrow> 'v) \<Rightarrow> (string \<times> 'v) list \<Rightarrow> (string \<times> 'v) list" where
  "pushUnder k init f [] = [(k, f init)]"
| "pushUnder k init f ((k', v) # kvs) =
     (if k' = k then (k', f v) # kvs else (k', v) # pushUnder k init f kvs)"

definition groupOne ::
  "Project list \<Rightarrow> (string \<times> (string \<times> TimeEntry list) list) list \<Rightarrow> TimeEntry \<Rightarrow>
   (string \<times> (string \<times> TimeEntry list) list) list" where
  "groupOne projects groupedData entry =
     (case find (\<lambda>p. p_id p = e_project entry) projects of
        None \<Rightarrow> groupedData
      | Some project \<Rightarrow>
          (let clientName = client_or (p_client project) ''No Client / Internal'';
               projectName = p_name project
           in pushUnder clientName []
                (pushUnder projectName [] (\<lambda>es. es @ [entry])) groupedData))"

text \<open>
  \<open>Object.entries(obj).sort()\<close>: without a comparison function the pairs are compared as
  strings.  A pair \<open>[key, value]\<close> converts to the key, a comma and the string of the value;
  an object converts to \<open>[object Object]\<close> and an array to its elements joined by commas.
\<close>

definition objectString :: string where
  "objectString = ''[object Object]''"

fun joinComma :: "string list \<Rightarrow> string" where
  "joinComma [] = []"
| "joinComma [x] = x"
| "joinComma (x # y # ys) = x @ '','' @ joinComma (y # ys)"

definition clientPairString :: "string \<times> (string \<times> TimeEntry list) list \<Rightarrow> string" where
  "clientPairString kv = fst kv @ '','' @ objectString"

definition projectPairString :: "string \<times> TimeEntry list \<Rightarrow> string" where
  "projectPairString kv = fst kv @ '','' @ joinComma (map (\<lambda>e. objectString) (snd kv))"

definition defaultSort :: "('a \<Rightarrow> string) \<Rightarrow> 'a list \<Rightarrow> 'a list" where
  "defaultSort toString xs = array_sort (\<lambda>x y. codeUnitCompare (toString x) (toString y)) xs"

definition projectBlock :: "string \<times> TimeEntry list \<Rightarrow> ProjectBlock" where
  "projectBlock kv =
     \<lparr>pb_name = fst kv, pb_entries = snd kv,
      pb_total = foldl (\<lambda>projectTotalHours entry.
          projectTotalHours + getDurationInHours (e_startTime entry) (e_endTime entry)) 0 (snd kv)\<rparr>"

definition clientBlock :: "string \<times> (string \<times> TimeEntry list) list \<Rightarrow> ClientBlock" where
  "clientBlock kv =
     \<lparr>cb_name = fst kv,
      cb_projects = map projectBlock (defaultSort projectPairString (snd kv))\<rparr>"

definition handleExport ::
  "int \<Rightarrow> InvoiceFilter \<Rightarrow> TimeEntry list \<Rightarrow> Project list \<Rightarrow> ProcessedData \<Rightarrow> Ledger" where
  "handleExport selectedYear invoiceFilter entries projects processed =
     (let exported = exportEntries entries selectedYear (relevantProjectIds processed) invoiceFilter;
          groupedData = foldl (groupOne projects) [] exported
      in \<lparr>lg_clients = map clientBlock (defaultSort clientPairString groupedData),
          lg_grandTotal = grandTotalHours processed\<rparr>)"

section \<open>Notions used in the statements\<close>

text \<open>
  The computed duration of an entry, the day groups and the entries of a grouping, the two
  orderings, and what it means for the totals and the placement of a group to be right.
\<close>

definition entryDuration :: "TimeEntry \<Rightarrow> number" where
  "entryDuration e = calculateDuration (e_startTime e) (e_endTime e)"

definition allDays :: "WeekGroup list \<Rightarrow> DayGroup list" where
  "allDays ws = concat (map wg_days ws)"

definition allEntries :: "WeekGroup list \<Rightarrow> TimeEntry list" where
  "allEntries ws = concat (map dg_entries (allDays ws))"

definition weeks_descending :: "WeekGroup list \<Rightarrow> bool" where
  "weeks_descending ws = sorted_wrt (\<lambda>a b. wg_start b < wg_start a) ws"

definition days_descending :: "DayGroup list \<Rightarrow> bool" where
  "days_descending ds = sorted_wrt (\<lambda>a b. dayNumber (dg_date b) < dayNumber (dg_date a)) ds"

definition day_total_ok :: "DayGroup \<Rightarrow> bool" where
  "day_total_ok d = (dg_duration d = sum_list (map entryDuration (dg_entries d)))"

definition week_total_ok :: "WeekGroup \<Rightarrow> bool" where
  "week_total_ok w =
     (wg_duration w = sum_list (map dg_duration (wg_days w)) \<and>
      (\<forall>d\<in>set (wg_days w). day_total_ok d))"

definition week_placed :: "WeekGroup \<Rightarrow> bool" where
  "week_placed w =
     (getDay (wg_start w) = 1 \<and> startOfDay (wg_start w) = wg_start w \<and>
      (\<forall>d\<in>set (wg_days w). \<forall>e\<in>set (dg_entries d).
         isSameDay (dg_date d) (e_date e) \<and> getStartOfWeek (e_date e) = wg_start w))"

abbreviation (input) addEntry :: "WeekGroup list \<Rightarrow> TimeEntry \<Rightarrow> WeekGroup list" where
  "addEntry \<equiv> (\<lambda>weeks entry. addToWeeks entry weeks)"

text \<open>
  The numbers that the duration functions read from a time, and a time with a component
  that does not parse.
\<close>

definition components :: "string \<Rightarrow> number list" where
  "components s = map Number (split_on CHR '':'' s)"

definition unparseable :: "string \<Rightarrow> bool" where
  "unparseable s = (element (components s) 0 = NaN \<or> element (components s) 1 = NaN)"

section \<open>Sample data\<close>

text \<open>Two entries of the same week, used to instantiate the statements below.\<close>

definition entry_may_1 :: TimeEntry where
  "entry_may_1 = \<lparr>e_id = ''e1'', e_description = ''design'', e_project = ''p1'',
     e_date = newDate 2024 4 1, e_startTime = ''09:00'', e_endTime = ''10:00'',
     e_billable = Some True, e_invoiced = Some False\<rparr>"

definition entry_may_3 :: TimeEntry where
  "entry_may_3 = \<lparr>e_id = ''e2'', e_description = ''review'', e_project = ''p1'',
     e_date = newDate 2024 4 3, e_startTime = ''23:30'', e_endTime = ''00:15'',
     e_billable = Some True, e_invoiced = Some False\<rparr>"

text \<open>Projects, a client, entries of March 2024 and the reports over them.\<close>

definition project_website :: Project where
  "project_website = \<lparr>p_id = ''p1'', p_name = ''Website'', p_client = Some ''Acme'',
     p_color = ''#336699'', p_active = Some True, p_rate = Some (Fin 50)\<rparr>"

definition project_internal :: Project where
  "project_internal = \<lparr>p_id = ''p2'', p_name = ''alpha'', p_client = None,
     p_color = ''#000000'', p_active = None, p_rate = None\<rparr>"

definition project_zzz :: Project where
  "project_zzz = \<lparr>p_id = ''p3'', p_name = ''beta'', p_client = Some ''zzz'',
     p_color = ''#ffffff'', p_active = None, p_rate = None\<rparr>"

definition project_portal :: Project where
  "project_portal = \<lparr>p_id = ''p4'', p_name = ''Portal'', p_client = Some ''Acme Corp'',
     p_color = ''#ff0000'', p_active = None, p_rate = None\<rparr>"

definition client_acme :: Client where
  "client_acme = \<lparr>cl_id = ''c1'', cl_name = ''Acme'', cl_color = None\<rparr>"

definition entry_march :: TimeEntry where
  "entry_march = \<lparr>e_id = ''e3'', e_description = ''build'', e_project = ''p1'',
     e_date = newDate 2024 2 10, e_startTime = ''09:00'', e_endTime = ''11:00'',
     e_billable = Some True, e_invoiced = Some False\<rparr>"

definition entry_march_unflagged :: TimeEntry where
  "entry_march_unflagged = entry_march\<lparr>e_billable := None\<rparr>"

definition entry_march_malformed :: TimeEntry where
  "entry_march_malformed = entry_march\<lparr>e_endTime := ''--:--''\<rparr>"

definition entry_march_portal :: TimeEntry where
  "entry_march_portal =
     entry_march\<lparr>e_id := ''e4'', e_project := ''p4'', e_date := newDate 2024 2 11\<rparr>"

definition march_report :: "TimeEntry list \<Rightarrow> ProcessedData" where
  "march_report entries =
     processedData 2024 (availableProjects ''all'' [project_website] []) [''p1''] All entries
       [project_website] [] [] []"

definition two_clients_report :: ProcessedData where
  "two_clients_report =
     processedData 2024 (availableProjects ''all'' [project_website, project_portal] [])
       [''p1'', ''p4''] All [entry_march, entry_march_portal]
       [project_website, project_portal] [] [] []"

definition unsorted_store :: Heap where
  "unsorted_store = \<lparr>h_arrays = (\<lambda>r. [])(0 := [project_zzz, project_website]), h_next = 1\<rparr>"

section \<open>Properties of the duration calculation\<close>

lemma is_digit_not_colon: "is_digit c \<Longrightarrow> c \<noteq> CHR '':''"
  by (auto simp: is_digit_def)

lemma num_sub_Fin [simp]: "num_sub (Fin a) (Fin b) = Fin (a - b)"
  by (simp add: num_sub_def)

lemma digit_plain:
  assumes "is_digit c"
  shows "\<not> is_space c" and "c \<noteq> CHR ''-''" and "c \<noteq> CHR ''+''"
    and "c \<noteq> CHR ''x''" and "c \<noteq> CHR ''X''" and "c \<noteq> CHR ''o''" and "c \<noteq> CHR ''O''"
    and "c \<noteq> CHR ''b''" and "c \<noteq> CHR ''B''" and "c \<noteq> CHR ''I''"
  using assms by (auto simp: is_digit_def is_space_def)

lemma Number_two_digits:
  assumes "is_digit a" and "is_digit b"
  shows "Number [a, b] = Fin (of_nat (10 * digit_val a + digit_val b))"
proof -
  have t: "trim [a, b] = [a, b]"
    using digit_plain(1)[OF assms(1)] digit_plain(1)[OF assms(2)] by (simp add: trim_def)
  have p: "radix_of_prefix [a, b] = None"
    using digit_plain[OF assms(2)] by (simp add: radix_of_prefix_def)
  have u: "unsigned_decimal [a, b] = Fin (of_nat (10 * digit_val a + digit_val b))"
    using assms digit_plain(10)[OF assms(1)]
    by (simp add: unsigned_decimal_def exponent_part_def scale10_def Let_def)
  show ?thesis
    using digit_plain(2,3)[OF assms(1)] by (simp add: Number_def t p u Let_def)
qed

lemma wellformed_time_shape:
  assumes "wellformed_time s"
  obtains a b c d where "s = [a, b, CHR '':'', c, d]"
    "is_digit a" "is_digit b" "is_digit c" "is_digit d"
proof -
  from assms have len: "length s = 5" by (simp add: wellformed_time_def)
  then obtain a b x c d where s: "s = [a, b, x, c, d]"
    by (cases s; simp; (rename_tac s1, case_tac s1; simp;
        (rename_tac s2, case_tac s2; simp; (rename_tac s3, case_tac s3; simp;
        (rename_tac s4, case_tac s4; simp)))))
  with assms show ?thesis
    by (intro that[of a b c d]) (simp_all add: wellformed_time_def)
qed

lemma components_wellformed:
  assumes "wellformed_time s"
  shows "map Number (split_on CHR '':'' s) = [Fin (of_int (hour_of s)), Fin (of_int (minute_of s))]"
proof -
  from assms obtain a b c d where s: "s = [a, b, CHR '':'', c, d]"
    and dig: "is_digit a" "is_digit b" "is_digit c" "is_digit d"
    by (rule wellformed_time_shape)
  from dig have ne: "a \<noteq> CHR '':''" "b \<noteq> CHR '':''" "c \<noteq> CHR '':''" "d \<noteq> CHR '':''"
    by (simp_all add: is_digit_not_colon)
  have sp: "split_on CHR '':'' [a, b, CHR '':'', c, d] = [[a, b], [c, d]]"
    using ne by simp
  show ?thesis
    unfolding s sp using dig by (simp add: Number_two_digits hour_of_def minute_of_def)
qed

lemma calculateDuration_wellformed:
  assumes "wellformed_time start" "wellformed_time end"
  shows "calculateDuration start end = Fin (of_int (duration_spec start end))"
  using components_wellformed[OF assms(1)] components_wellformed[OF assms(2)]
  by (simp add: calculateDuration_def element_def duration_spec_def Let_def)

lemma duration_spec_nonneg:
  assumes "wellformed_time start" "wellformed_time end"
  shows "0 \<le> duration_spec start end"
proof -
  have "hour_of start < 24" "minute_of start < 60" "0 \<le> hour_of end" "0 \<le> minute_of end"
    using assms by (simp_all add: wellformed_time_def hour_of_def minute_of_def)
  then show ?thesis
    by (simp add: duration_spec_def Let_def)
qed

text \<open>
  C4.  For well-formed "HH:MM" strings the computed duration in minutes is the difference
  of the end and the start, each taken as hour*60+minute, plus 1440 when that difference is
  negative.  The result is never negative, it is 0 when end equals start, and it is 45 for
  start "23:30" and end "00:15".
\<close>

theorem calculateDuration_correct:
  assumes "wellformed_time start" and "wellformed_time end"
  shows "calculateDuration start end = Fin (of_int (duration_spec start end)) \<and>
         0 \<le> duration_spec start end \<and>
         (end = start \<longrightarrow> calculateDuration start end = Fin 0) \<and>
         (start = ''23:30'' \<and> end = ''00:15'' \<longrightarrow> calculateDuration start end = Fin 45)"
proof -
  have eq: "calculateDuration start end = Fin (of_int (duration_spec start end))"
    using assms by (rule calculateDuration_wellformed)
  have nonneg: "0 \<le> duration_spec start end"
    using assms by (rule duration_spec_nonneg)
  have same: "calculateDuration start end = Fin 0" if "end = start"
    using eq that by (simp add: duration_spec_def)
  have night: "calculateDuration start end = Fin 45" if "start = ''23:30''" "end = ''00:15''"
    using eq that
    by (simp add: duration_spec_def hour_of_def minute_of_def digit_val_def)
  from eq nonneg same night show ?thesis
    by blast
qed

theorem calculateDuration_correct_witness:
  "wellformed_time ''23:30'' \<and> wellformed_time ''00:15'' \<and>
   calculateDuration ''23:30'' ''00:15'' = Fin 45 \<and>
   duration_spec ''23:30'' ''00:15'' = 45 \<and>
   calculateDuration ''23:30'' ''23:30'' = Fin 0"
proof -
  have w1: "wellformed_time ''23:30''"
    by (simp add: wellformed_time_def is_digit_def hour_of_def minute_of_def digit_val_def)
  have w2: "wellformed_time ''00:15''"
    by (simp add: wellformed_time_def is_digit_def hour_of_def minute_of_def digit_val_def)
  have d: "duration_spec ''23:30'' ''00:15'' = 45"
    by (simp add: duration_spec_def hour_of_def minute_of_def digit_val_def)
  show ?thesis
    using w1 w2 d calculateDuration_correct[OF w1 w2] calculateDuration_correct[OF w1 w1]
    by (simp add: duration_spec_def)
qed

section \<open>Properties of sorting and of the calendar\<close>

lemma mset_insert_sorted: "mset (insert_sorted cmp x xs) = add_mset x (mset xs)"
  by (induction xs) simp_all

lemma mset_array_sort: "mset (array_sort cmp xs) = mset xs"
  by (induction xs) (simp_all add: mset_insert_sorted)

lemma set_insert_sorted: "set (insert_sorted cmp x xs) = insert x (set xs)"
  by (induction xs) auto

lemma entryCompare_le: "entryCompare x y \<le> 0 \<Longrightarrow> e_date y \<le> e_date x"
  by (auto simp: entryCompare_def Let_def split: if_splits)

lemma entryCompare_gt: "\<not> entryCompare x y \<le> 0 \<Longrightarrow> e_date x \<le> e_date y"
  by (auto simp: entryCompare_def Let_def split: if_splits)

lemma sorted_insert_sorted:
  "sorted_wrt (\<lambda>a b. e_date b \<le> e_date a) xs \<Longrightarrow>
   sorted_wrt (\<lambda>a b. e_date b \<le> e_date a) (insert_sorted entryCompare x xs)"
proof (induction xs)
  case Nil
  then show ?case by simp
next
  case (Cons y ys)
  show ?case
  proof (cases "entryCompare x y \<le> 0")
    case True
    then have "e_date y \<le> e_date x" by (rule entryCompare_le)
    with Cons.prems True show ?thesis by fastforce
  next
    case False
    then have "e_date x \<le> e_date y" by (rule entryCompare_gt)
    with Cons False show ?thesis by (auto simp: set_insert_sorted)
  qed
qed

lemma sorted_array_sort:
  "sorted_wrt (\<lambda>a b. e_date b \<le> e_date a) (array_sort entryCompare xs)"
  by (induction xs) (simp_all add: sorted_insert_sorted)

lemma dayNumber_mono: "a \<le> b \<Longrightarrow> dayNumber a \<le> dayNumber b"
  by (simp add: dayNumber_def msPerDay_def zdiv_mono1)

lemma dayNumber_days: "dayNumber (k * msPerDay) = k"
  by (simp add: dayNumber_def msPerDay_def)

lemma weekday_offset:
  fixes n :: int
  shows "(if (n + 4) mod 7 = 0 then - 6 else 1) - (n + 4) mod 7 = - ((n + 3) mod 7)"
proof -
  define r where "r = (n + 3) mod 7"
  have r: "0 \<le> r" "r < 7"
    by (simp_all add: r_def)
  have "n + 4 = n + 3 + 1" by simp
  then have e: "(n + 4) mod 7 = (r + 1) mod 7"
    unfolding r_def by (metis mod_add_left_eq)
  have "(if (n + 4) mod 7 = 0 then - 6 else 1) - (n + 4) mod 7 = - r"
  proof (cases "r = 6")
    case True
    then show ?thesis by (simp add: e)
  next
    case False
    with r have "(r + 1) mod 7 = r + 1" by simp
    with r show ?thesis by (simp add: e)
  qed
  then show ?thesis by (simp add: r_def)
qed

lemma weekKey_eq:
  fixes a :: int
  shows "a - (a + 3) mod 7 = 7 * ((a + 3) div 7) - 3"
proof -
  have "a + 3 = 7 * ((a + 3) div 7) + (a + 3) mod 7" by simp
  then show ?thesis by linarith
qed

lemma getStartOfWeek_eq:
  "getStartOfWeek t = (dayNumber t - (dayNumber t + 3) mod 7) * msPerDay"
proof -
  define n where "n = dayNumber t"
  have shift: "dayNumber (t + k * msPerDay) = n + k" for k
    by (simp add: dayNumber_def msPerDay_def n_def)
  have "(if (n + 4) mod 7 = 0 then - 6 else 1) - (n + 4) mod 7 = - ((n + 3) mod 7)"
    by (rule weekday_offset)
  then show ?thesis
    by (simp add: getStartOfWeek_def getDay_def startOfDay_def addDays_def Let_def shift
        flip: n_def)
qed

lemma weekKey_mono:
  fixes a b :: int
  assumes "a \<le> b"
  shows "a - (a + 3) mod 7 \<le> b - (b + 3) mod 7"
proof -
  have "(a + 3) div 7 \<le> (b + 3) div 7"
    using assms by (simp add: zdiv_mono1)
  then show ?thesis
    unfolding weekKey_eq by simp
qed

lemma getStartOfWeek_mono: "a \<le> b \<Longrightarrow> getStartOfWeek a \<le> getStartOfWeek b"
  using weekKey_mono[OF dayNumber_mono, of a b]
  by (simp add: getStartOfWeek_eq msPerDay_def)

lemma getStartOfWeek_monday:
  "getDay (getStartOfWeek t) = 1 \<and> startOfDay (getStartOfWeek t) = getStartOfWeek t \<and>
   getStartOfWeek t \<le> t \<and> t < addDays (getStartOfWeek t) 7"
proof -
  define n where "n = dayNumber t"
  have 1: "(n - (n + 3) mod 7 + 4) mod 7 = 1"
    unfolding weekKey_eq by (simp add: algebra_simps)
  have 2: "n * msPerDay \<le> t" "t < (n + 1) * msPerDay"
    unfolding n_def dayNumber_def msPerDay_def by simp_all
  have 3: "0 \<le> (n + 3) mod 7" "(n + 3) mod 7 < 7" by simp_all
  have 4: "(n - (n + 3) mod 7) * msPerDay \<le> n * msPerDay"
    using 3 by (simp add: msPerDay_def)
  have 5: "(n + 1) * msPerDay \<le> (n - (n + 3) mod 7) * msPerDay + 7 * msPerDay"
    using 3 by (simp add: msPerDay_def algebra_simps)
  show ?thesis
    using 1 2 4 5
    by (simp add: getStartOfWeek_eq getDay_def dayNumber_days startOfDay_def addDays_def
        flip: n_def)
qed

lemma addToDays_total:
  "sum_list (map dg_duration (addToDays e dur ds)) = sum_list (map dg_duration ds) + dur"
  by (induction ds) (simp_all add: ac_simps)

lemma addToDays_ok:
  "\<forall>d\<in>set ds. day_total_ok d \<Longrightarrow> \<forall>d\<in>set (addToDays e (entryDuration e) ds). day_total_ok d"
  by (induction ds) (simp_all add: day_total_ok_def ac_simps)

lemma addToWeeks_ok:
  "\<forall>w\<in>set ws. week_total_ok w \<Longrightarrow> \<forall>w\<in>set (addToWeeks e ws). week_total_ok w"
proof (induction ws)
  case Nil
  show ?case
    by (simp add: Let_def week_total_ok_def day_total_ok_def flip: entryDuration_def)
next
  case (Cons w ws)
  have "week_total_ok (w\<lparr>wg_days := addToDays e (entryDuration e) (wg_days w),
                         wg_duration := wg_duration w + entryDuration e\<rparr>)"
    using Cons.prems addToDays_ok[of "wg_days w" e]
    by (simp add: week_total_ok_def addToDays_total)
  with Cons show ?case
    by (simp add: Let_def flip: entryDuration_def)
qed

lemma addToWeeks_total:
  "sum_list (map wg_duration (addToWeeks e ws)) = sum_list (map wg_duration ws) + entryDuration e"
  by (induction ws) (simp_all add: Let_def ac_simps flip: entryDuration_def)

lemma foldl_total:
  "sum_list (map wg_duration (foldl addEntry ws es)) =
   sum_list (map wg_duration ws) + sum_list (map entryDuration es)"
  by (induction es arbitrary: ws) (simp_all add: addToWeeks_total ac_simps)

lemma foldl_ok:
  "\<forall>w\<in>set ws. week_total_ok w \<Longrightarrow> \<forall>w\<in>set (foldl addEntry ws es). week_total_ok w"
proof (induction es arbitrary: ws)
  case Nil
  then show ?case by simp
next
  case (Cons e es)
  from Cons.prems have "\<forall>w\<in>set (addToWeeks e ws). week_total_ok w"
    by (rule addToWeeks_ok)
  then have "\<forall>w\<in>set (foldl addEntry (addToWeeks e ws) es). week_total_ok w"
    by (rule Cons.IH)
  then show ?case by simp
qed

lemma sum_list_permuted:
  fixes f :: "'a \<Rightarrow> number"
  assumes "mset xs = mset ys"
  shows "sum_list (map f xs) = sum_list (map f ys)"
proof -
  have "sum_mset (image_mset f (mset xs)) = sum_mset (image_mset f (mset ys))"
    using assms by simp
  then show ?thesis
    by (simp only: mset_map[symmetric] sum_mset_sum_list)
qed

lemma allDays_total:
  "\<forall>w\<in>set ws. week_total_ok w \<Longrightarrow>
   sum_list (map dg_duration (allDays ws)) = sum_list (map wg_duration ws)"
  by (induction ws) (simp_all add: allDays_def week_total_ok_def)

lemma addToDays_entries:
  "mset (concat (map dg_entries (addToDays e dur ds))) =
   add_mset e (mset (concat (map dg_entries ds)))"
  by (induction ds) simp_all

lemma addToWeeks_entries:
  "mset (allEntries (addToWeeks e ws)) = add_mset e (mset (allEntries ws))"
  by (induction ws) (simp_all add: allEntries_def allDays_def Let_def addToDays_entries)

lemma foldl_entries:
  "mset (allEntries (foldl addEntry ws es)) = mset (allEntries ws) + mset es"
  by (induction es arbitrary: ws) (simp_all add: addToWeeks_entries)

lemma sameDay_midnights:
  assumes "isSameDay a b" and "startOfDay a = a" and "startOfDay b = b"
  shows "a = b"
proof -
  from assms(1) have "startOfDay a = startOfDay b"
    unfolding isSameDay_def startOfDay_def by (rule arg_cong)
  with assms(2,3) show ?thesis
    by metis
qed

lemma isSameDay_refl: "isSameDay a a"
  by (simp add: isSameDay_def)

lemma addToDays_placed:
  assumes "\<forall>d\<in>set ds. \<forall>x\<in>set (dg_entries d). isSameDay (dg_date d) (e_date x) \<and> P x"
    and "P e"
  shows "\<forall>d\<in>set (addToDays e dur ds). \<forall>x\<in>set (dg_entries d).
           isSameDay (dg_date d) (e_date x) \<and> P x"
  using assms by (induction ds) (simp_all add: isSameDay_refl)

lemma week_placed_new:
  "week_placed \<lparr>wg_start = getStartOfWeek (e_date e), wg_end = x, wg_duration = y,
                 wg_days = [\<lparr>dg_date = e_date e, dg_duration = v, dg_entries = [e]\<rparr>]\<rparr>"
proof -
  have "getDay (getStartOfWeek (e_date e)) = 1"
    and "startOfDay (getStartOfWeek (e_date e)) = getStartOfWeek (e_date e)"
    using getStartOfWeek_monday[of "e_date e"] by blast+
  then show ?thesis
    unfolding week_placed_def by (simp add: isSameDay_refl)
qed

lemma week_placed_update:
  assumes "week_placed w" and "isSameDay (wg_start w) (getStartOfWeek (e_date e))"
  shows "week_placed (w\<lparr>wg_days := addToDays e dur (wg_days w), wg_duration := z\<rparr>)"
proof -
  have mid: "startOfDay (getStartOfWeek (e_date e)) = getStartOfWeek (e_date e)"
    using getStartOfWeek_monday[of "e_date e"] by blast
  from assms(1) have "startOfDay (wg_start w) = wg_start w"
    unfolding week_placed_def by blast
  with assms(2) have eq: "wg_start w = getStartOfWeek (e_date e)"
    using mid by (rule sameDay_midnights)
  have "\<forall>d\<in>set (addToDays e dur (wg_days w)). \<forall>x\<in>set (dg_entries d).
          isSameDay (dg_date d) (e_date x) \<and> getStartOfWeek (e_date x) = wg_start w"
  proof (rule addToDays_placed)
    show "\<forall>d\<in>set (wg_days w). \<forall>x\<in>set (dg_entries d).
            isSameDay (dg_date d) (e_date x) \<and> getStartOfWeek (e_date x) = wg_start w"
      using assms(1) unfolding week_placed_def by blast
    show "getStartOfWeek (e_date e) = wg_start w"
      using eq by (rule sym)
  qed
  moreover have "getDay (wg_start w) = 1 \<and> startOfDay (wg_start w) = wg_start w"
    using assms(1) unfolding week_placed_def by blast
  ultimately show ?thesis
    unfolding week_placed_def by simp
qed

lemma addToWeeks_placed:
  "\<forall>w\<in>set ws. week_placed w \<Longrightarrow> \<forall>w\<in>set (addToWeeks e ws). week_placed w"
proof (induction ws)
  case Nil
  show ?case
    by (simp add: Let_def week_placed_new)
next
  case (Cons w ws)
  then show ?case
    by (simp add: Let_def week_placed_update)
qed

lemma foldl_placed:
  "\<forall>w\<in>set ws. week_placed w \<Longrightarrow> \<forall>w\<in>set (foldl addEntry ws es). week_placed w"
proof (induction es arbitrary: ws)
  case Nil
  then show ?case by simp
next
  case (Cons e es)
  from Cons.prems have "\<forall>w\<in>set (addToWeeks e ws). week_placed w"
    by (rule addToWeeks_placed)
  then have "\<forall>w\<in>set (foldl addEntry (addToWeeks e ws) es). week_placed w"
    by (rule Cons.IH)
  then show ?case by simp
qed

lemma addToDays_date_cases:
  "x \<in> set (addToDays e dur ds) \<Longrightarrow>
   dg_date x = e_date e \<or> (\<exists>y\<in>set ds. dg_date x = dg_date y)"
  by (induction ds) (auto split: if_splits)

lemma addToWeeks_start_cases:
  "x \<in> set (addToWeeks e ws) \<Longrightarrow>
   wg_start x = getStartOfWeek (e_date e) \<or> (\<exists>y\<in>set ws. wg_start x = wg_start y)"
  by (induction ws) (auto simp: Let_def split: if_splits)

lemma addToWeeks_day_cases:
  "x \<in> set (addToWeeks e ws) \<Longrightarrow> d \<in> set (wg_days x) \<Longrightarrow>
   dg_date d = e_date e \<or> (\<exists>y\<in>set ws. \<exists>d'\<in>set (wg_days y). dg_date d = dg_date d')"
proof (induction ws)
  case Nil
  then show ?case by (simp add: Let_def)
next
  case (Cons w ws)
  show ?case
  proof (cases "isSameDay (wg_start w) (getStartOfWeek (e_date e))")
    case True
    with Cons.prems show ?thesis
      using addToDays_date_cases[of d e _ "wg_days w"]
      by (auto simp: Let_def)
  next
    case False
    with Cons show ?thesis
      by (auto simp: Let_def)
  qed
qed

lemma addToDays_desc:
  assumes "days_descending ds"
    and "\<forall>d\<in>set ds. dayNumber (e_date e) \<le> dayNumber (dg_date d)"
  shows "days_descending (addToDays e dur ds)"
  using assms
proof (induction ds)
  case Nil
  show ?case by (simp add: days_descending_def)
next
  case (Cons d ds)
  show ?case
  proof (cases "isSameDay (dg_date d) (e_date e)")
    case True
    with Cons.prems(1) show ?thesis
      by (simp add: days_descending_def)
  next
    case False
    from Cons have tl: "days_descending (addToDays e dur ds)"
      by (simp add: days_descending_def)
    have "dayNumber (dg_date x) < dayNumber (dg_date d)" if "x \<in> set (addToDays e dur ds)" for x
      using addToDays_date_cases[OF that] Cons.prems False
      by (auto simp: days_descending_def isSameDay_def)
    with tl False show ?thesis
      by (simp add: days_descending_def)
  qed
qed

lemma addToWeeks_desc:
  assumes "weeks_descending ws"
    and "\<forall>w\<in>set ws. getStartOfWeek (e_date e) \<le> wg_start w"
  shows "weeks_descending (addToWeeks e ws)"
  using assms
proof (induction ws)
  case Nil
  show ?case by (simp add: weeks_descending_def Let_def)
next
  case (Cons w ws)
  show ?case
  proof (cases "isSameDay (wg_start w) (getStartOfWeek (e_date e))")
    case True
    with Cons.prems(1) show ?thesis
      by (simp add: weeks_descending_def Let_def)
  next
    case False
    from Cons have tl: "weeks_descending (addToWeeks e ws)"
      by (simp add: weeks_descending_def)
    from False have ne: "wg_start w \<noteq> getStartOfWeek (e_date e)"
      by (auto simp: isSameDay_def)
    from Cons.prems(2) have "getStartOfWeek (e_date e) \<le> wg_start w"
      by simp
    with ne have new: "getStartOfWeek (e_date e) < wg_start w"
      by simp
    from Cons.prems(1) have old: "\<forall>y\<in>set ws. wg_start y < wg_start w"
      by (simp add: weeks_descending_def)
    have "wg_start x < wg_start w" if "x \<in> set (addToWeeks e ws)" for x
      using addToWeeks_start_cases[OF that] new old by auto
    with tl False show ?thesis
      by (simp add: weeks_descending_def Let_def)
  qed
qed

lemma addToWeeks_days_desc:
  assumes "\<forall>w\<in>set ws. days_descending (wg_days w)"
    and "\<forall>w\<in>set ws. \<forall>d\<in>set (wg_days w). dayNumber (e_date e) \<le> dayNumber (dg_date d)"
  shows "\<forall>w\<in>set (addToWeeks e ws). days_descending (wg_days w)"
  using assms
proof (induction ws)
  case Nil
  show ?case by (simp add: Let_def days_descending_def)
next
  case (Cons w ws)
  have "days_descending (addToDays e dur (wg_days w))" for dur
    using Cons.prems by (intro addToDays_desc) simp_all
  with Cons show ?case
    by (simp add: Let_def)
qed

lemma foldl_desc:
  assumes "sorted_wrt (\<lambda>a b. e_date b \<le> e_date a) es"
    and "weeks_descending ws"
    and "\<forall>w\<in>set ws. days_descending (wg_days w)"
    and "\<forall>e\<in>set es. \<forall>w\<in>set ws. getStartOfWeek (e_date e) \<le> wg_start w \<and>
           (\<forall>d\<in>set (wg_days w). dayNumber (e_date e) \<le> dayNumber (dg_date d))"
  shows "weeks_descending (foldl addEntry ws es) \<and>
         (\<forall>w\<in>set (foldl addEntry ws es). days_descending (wg_days w))"
  using assms
proof (induction es arbitrary: ws)
  case Nil
  then show ?case by simp
next
  case (Cons e es)
  have later: "e_date x \<le> e_date e" if "x \<in> set es" for x
    using Cons.prems(1) that by simp
  have 1: "weeks_descending (addToWeeks e ws)"
    using Cons.prems by (intro addToWeeks_desc) simp_all
  have 2: "\<forall>w\<in>set (addToWeeks e ws). days_descending (wg_days w)"
    using Cons.prems by (intro addToWeeks_days_desc) simp_all
  have 3: "getStartOfWeek (e_date x) \<le> wg_start w"
    if "x \<in> set es" "w \<in> set (addToWeeks e ws)" for x w
    using addToWeeks_start_cases[OF that(2)] Cons.prems(4) that(1)
      getStartOfWeek_mono[OF later[OF that(1)]]
    by auto
  have 4: "dayNumber (e_date x) \<le> dayNumber (dg_date d)"
    if "x \<in> set es" "w \<in> set (addToWeeks e ws)" "d \<in> set (wg_days w)" for x w d
    using addToWeeks_day_cases[OF that(2,3)] Cons.prems(4) that(1)
      dayNumber_mono[OF later[OF that(1)]]
    by auto
  have "weeks_descending (foldl addEntry (addToWeeks e ws) es) \<and>
        (\<forall>w\<in>set (foldl addEntry (addToWeeks e ws) es). days_descending (wg_days w))"
    using Cons.prems(1) 1 2 3 4 by (intro Cons.IH) auto
  then show ?case by simp
qed

lemma groupEntriesByWeek_desc:
  "weeks_descending (groupEntriesByWeek entries) \<and>
   (\<forall>w\<in>set (groupEntriesByWeek entries). days_descending (wg_days w))"
  unfolding groupEntriesByWeek_def Let_def
  by (rule foldl_desc) (simp_all add: sorted_array_sort weeks_descending_def)

section \<open>Properties of the week and day grouping\<close>

lemma sample_wellformed:
  "wellformed_time (e_startTime entry_may_1) \<and> wellformed_time (e_endTime entry_may_1) \<and>
   wellformed_time (e_startTime entry_may_3) \<and> wellformed_time (e_endTime entry_may_3)"
  by (simp add: entry_may_1_def entry_may_3_def wellformed_time_def is_digit_def hour_of_def
      minute_of_def digit_val_def)

lemma sample_durations:
  "entryDuration entry_may_1 = Fin 60 \<and> entryDuration entry_may_3 = Fin 45"
  by code_simp

lemma sample_grouping_length: "length (groupEntriesByWeek [entry_may_1, entry_may_3]) = 1"
  by code_simp

text \<open>
  C5.  For time entries with well-formed times, in the output of the week and day grouping
  the total of every week group is the sum of the totals of its day groups, the total of
  every day group is the sum of the computed durations of its entries, and the sum of the
  totals of all day groups of all weeks is the sum of the computed durations of all the
  input entries.  Each computed duration is the number of minutes of the specification.
\<close>

theorem groupEntriesByWeek_totals:
  assumes "\<forall>e\<in>set entries. wellformed_time (e_startTime e) \<and> wellformed_time (e_endTime e)"
  shows "(\<forall>w\<in>set (groupEntriesByWeek entries).
            wg_duration w = sum_list (map dg_duration (wg_days w)) \<and>
            (\<forall>d\<in>set (wg_days w). dg_duration d = sum_list (map entryDuration (dg_entries d)))) \<and>
         sum_list (map dg_duration (allDays (groupEntriesByWeek entries))) =
           sum_list (map entryDuration entries) \<and>
         (\<forall>e\<in>set entries.
            entryDuration e = Fin (of_int (duration_spec (e_startTime e) (e_endTime e))))"
proof -
  let ?sorted = "array_sort entryCompare entries"
  have res: "groupEntriesByWeek entries = foldl addEntry [] ?sorted"
    by (simp add: groupEntriesByWeek_def)
  have ok: "\<forall>w\<in>set (groupEntriesByWeek entries). week_total_ok w"
    unfolding res by (rule foldl_ok) simp
  have "sum_list (map dg_duration (allDays (groupEntriesByWeek entries))) =
        sum_list (map wg_duration (groupEntriesByWeek entries))"
    using ok by (rule allDays_total)
  also have "\<dots> = sum_list (map entryDuration ?sorted)"
    unfolding res by (simp add: foldl_total)
  also have "\<dots> = sum_list (map entryDuration entries)"
    by (rule sum_list_permuted) (rule mset_array_sort)
  finally have total: "sum_list (map dg_duration (allDays (groupEntriesByWeek entries))) =
        sum_list (map entryDuration entries)" .
  have minutes: "entryDuration e = Fin (of_int (duration_spec (e_startTime e) (e_endTime e)))"
    if "e \<in> set entries" for e
    using assms that by (simp add: entryDuration_def calculateDuration_wellformed)
  from ok total minutes show ?thesis
    by (simp add: week_total_ok_def day_total_ok_def)
qed

theorem groupEntriesByWeek_totals_witness:
  "wellformed_time (e_startTime entry_may_1) \<and> wellformed_time (e_endTime entry_may_1) \<and>
   wellformed_time (e_startTime entry_may_3) \<and> wellformed_time (e_endTime entry_may_3) \<and>
   sum_list (map dg_duration (allDays (groupEntriesByWeek [entry_may_1, entry_may_3]))) = Fin 105 \<and>
   wg_duration (groupEntriesByWeek [entry_may_1, entry_may_3] ! 0) =
     sum_list (map dg_duration (wg_days (groupEntriesByWeek [entry_may_1, entry_may_3] ! 0)))"
proof -
  have hyp: "\<forall>e\<in>set [entry_may_1, entry_may_3].
               wellformed_time (e_startTime e) \<and> wellformed_time (e_endTime e)"
    using sample_wellformed by simp
  have mem: "groupEntriesByWeek [entry_may_1, entry_may_3] ! 0
             \<in> set (groupEntriesByWeek [entry_may_1, entry_may_3])"
    by (rule nth_mem) (simp add: sample_grouping_length)
  show ?thesis
    using groupEntriesByWeek_totals[OF hyp] mem sample_wellformed sample_durations
    by simp
qed

lemma descending_distinct:
  fixes f :: "'a \<Rightarrow> int"
  shows "sorted_wrt (\<lambda>a b. f b < f a) xs \<Longrightarrow> distinct (map f xs)"
  by (induction xs) auto

text \<open>
  C10.  The grouping partitions its input: the entries of all day groups of all week groups
  are the input entries, each as often as it occurs in the input; every entry lies in a day
  group of its own calendar day, inside the week group that starts on the Monday of the
  entry's week; and no two week groups have the same start, no two day groups of a week
  the same day, so the group that holds an entry is the only one that could.
\<close>

theorem groupEntriesByWeek_partition:
  "mset (allEntries (groupEntriesByWeek entries)) = mset entries \<and>
   (\<forall>w\<in>set (groupEntriesByWeek entries). \<forall>d\<in>set (wg_days w). \<forall>e\<in>set (dg_entries d).
      isSameDay (dg_date d) (e_date e) \<and> wg_start w = getStartOfWeek (e_date e) \<and>
      getDay (wg_start w) = 1 \<and> wg_start w \<le> e_date e \<and> e_date e < addDays (wg_start w) 7) \<and>
   distinct (map wg_start (groupEntriesByWeek entries)) \<and>
   (\<forall>w\<in>set (groupEntriesByWeek entries). distinct (map (\<lambda>d. dayNumber (dg_date d)) (wg_days w)))"
proof -
  let ?sorted = "array_sort entryCompare entries"
  have res: "groupEntriesByWeek entries = foldl addEntry [] ?sorted"
    by (simp add: groupEntriesByWeek_def)
  have none: "allEntries [] = []"
    by (simp add: allEntries_def allDays_def)
  have "mset (allEntries (groupEntriesByWeek entries)) = mset ?sorted"
    unfolding res by (simp only: foldl_entries none) simp
  then have all: "mset (allEntries (groupEntriesByWeek entries)) = mset entries"
    by (simp add: mset_array_sort)
  have placed: "\<forall>w\<in>set (groupEntriesByWeek entries). week_placed w"
    unfolding res by (rule foldl_placed) simp
  have place: "isSameDay (dg_date d) (e_date e) \<and> wg_start w = getStartOfWeek (e_date e) \<and>
      getDay (wg_start w) = 1 \<and> wg_start w \<le> e_date e \<and> e_date e < addDays (wg_start w) 7"
    if "w \<in> set (groupEntriesByWeek entries)" "d \<in> set (wg_days w)" "e \<in> set (dg_entries d)"
    for w d e
  proof -
    from placed that have 1: "isSameDay (dg_date d) (e_date e)"
      and 2: "getStartOfWeek (e_date e) = wg_start w"
      unfolding week_placed_def by blast+
    from 1 2[symmetric] getStartOfWeek_monday[of "e_date e"] show ?thesis
      unfolding 2 by blast
  qed
  have desc: "weeks_descending (groupEntriesByWeek entries)"
    and ddesc: "\<forall>w\<in>set (groupEntriesByWeek entries). days_descending (wg_days w)"
    using groupEntriesByWeek_desc[of entries] by blast+
  have d1: "distinct (map wg_start (groupEntriesByWeek entries))"
    using desc unfolding weeks_descending_def by (rule descending_distinct)
  have d2: "distinct (map (\<lambda>d. dayNumber (dg_date d)) (wg_days w))"
    if "w \<in> set (groupEntriesByWeek entries)" for w
    using ddesc that unfolding days_descending_def by (intro descending_distinct) blast
  from all place d1 d2 show ?thesis
    by blast
qed

theorem groupEntriesByWeek_partition_witness:
  "mset (allEntries (groupEntriesByWeek [entry_may_1, entry_may_3])) = mset [entry_may_1, entry_may_3] \<and>
   length (groupEntriesByWeek [entry_may_1, entry_may_3]) = 1 \<and>
   distinct (map (\<lambda>d. dayNumber (dg_date d))
      (wg_days (groupEntriesByWeek [entry_may_1, entry_may_3] ! 0)))"
proof -
  have mem: "groupEntriesByWeek [entry_may_1, entry_may_3] ! 0
             \<in> set (groupEntriesByWeek [entry_may_1, entry_may_3])"
    by (rule nth_mem) (simp add: sample_grouping_length)
  show ?thesis
    using groupEntriesByWeek_partition[of "[entry_may_1, entry_may_3]"] mem sample_grouping_length
    by blast
qed

lemma may_2024_days:
  "days_from_civil 2024 5 1 = 19844 \<and> days_from_civil 2024 5 3 = 19846 \<and>
   civil_from_days 19844 = (2024, 5, 1) \<and> civil_from_days 19846 = (2024, 5, 3)"
  by code_simp

lemma same_week_two_days:
  assumes da: "dayNumber (e_date a) = 19844" and db: "dayNumber (e_date b) = 19846"
  shows "\<exists>w. foldl addEntry [] [b, a] = [w] \<and> map dg_date (wg_days w) = [e_date b, e_date a]"
proof -
  have wa: "getStartOfWeek (e_date a) = 19842 * msPerDay"
    by (simp add: getStartOfWeek_eq da)
  have wb: "getStartOfWeek (e_date b) = 19842 * msPerDay"
    by (simp add: getStartOfWeek_eq db)
  have same: "isSameDay (getStartOfWeek (e_date b)) (getStartOfWeek (e_date a))"
    by (simp add: wa wb isSameDay_def)
  have other: "\<not> isSameDay (e_date b) (e_date a)"
    by (simp add: isSameDay_def da db)
  show ?thesis
    by (simp add: Let_def same other)
qed

lemma sort_two_days:
  assumes da: "dayNumber (e_date a) = 19844" and db: "dayNumber (e_date b) = 19846"
  shows "array_sort entryCompare [a, b] = [b, a] \<and> array_sort entryCompare [b, a] = [b, a]"
proof -
  have "\<not> e_date b \<le> e_date a"
    using dayNumber_mono[of "e_date b" "e_date a"] da db by auto
  then show ?thesis
    by (simp add: entryCompare_def Let_def)
qed

text \<open>
  C6.  The grouping returns its week groups in strictly descending order of week start and,
  within each week group, the day groups in strictly descending order of their day, as the
  loop leaves them.  Two entries dated 2024-05-01 and 2024-05-03, given in either order,
  yield exactly one week group, whose days are those of 2024-05-03 and 2024-05-01 in this
  order.
\<close>

theorem groupEntriesByWeek_descending:
  "weeks_descending (groupEntriesByWeek entries) \<and>
   (\<forall>w\<in>set (groupEntriesByWeek entries). days_descending (wg_days w)) \<and>
   civil_from_days (days_from_civil 2024 5 1) = (2024, 5, 1) \<and>
   civil_from_days (days_from_civil 2024 5 3) = (2024, 5, 3) \<and>
   (dayNumber (e_date a) = days_from_civil 2024 5 1 \<and>
    dayNumber (e_date b) = days_from_civil 2024 5 3 \<longrightarrow>
      (\<exists>w. groupEntriesByWeek [a, b] = [w] \<and> map dg_date (wg_days w) = [e_date b, e_date a]) \<and>
      (\<exists>w. groupEntriesByWeek [b, a] = [w] \<and> map dg_date (wg_days w) = [e_date b, e_date a]))"
proof -
  have two: "(\<exists>w. groupEntriesByWeek [a, b] = [w] \<and> map dg_date (wg_days w) = [e_date b, e_date a]) \<and>
      (\<exists>w. groupEntriesByWeek [b, a] = [w] \<and> map dg_date (wg_days w) = [e_date b, e_date a])"
    if "dayNumber (e_date a) = 19844" "dayNumber (e_date b) = 19846"
    using sort_two_days[OF that] same_week_two_days[OF that]
    by (simp only: groupEntriesByWeek_def Let_def) 
  show ?thesis
    using groupEntriesByWeek_desc[of entries] may_2024_days two by simp
qed

theorem groupEntriesByWeek_descending_witness:
  "dayNumber (e_date entry_may_1) = days_from_civil 2024 5 1 \<and>
   dayNumber (e_date entry_may_3) = days_from_civil 2024 5 3 \<and>
   (\<exists>w. groupEntriesByWeek [entry_may_1, entry_may_3] = [w] \<and>
        map (\<lambda>d. civil_from_days (dayNumber (dg_date d))) (wg_days w) = [(2024, 5, 3), (2024, 5, 1)]) \<and>
   days_descending (wg_days (groupEntriesByWeek [entry_may_1, entry_may_3] ! 0))"
proof -
  have d1: "dayNumber (e_date entry_may_1) = 19844"
    by (simp add: entry_may_1_def newDate_def days_from_civil_def dayNumber_days)
  have d3: "dayNumber (e_date entry_may_3) = 19846"
    by (simp add: entry_may_3_def newDate_def days_from_civil_def dayNumber_days)
  have mem: "groupEntriesByWeek [entry_may_1, entry_may_3] ! 0
             \<in> set (groupEntriesByWeek [entry_may_1, entry_may_3])"
    by (rule nth_mem) (simp add: sample_grouping_length)
  from groupEntriesByWeek_descending[of "[entry_may_1, entry_may_3]" entry_may_1 entry_may_3]
  have desc: "\<forall>w\<in>set (groupEntriesByWeek [entry_may_1, entry_may_3]). days_descending (wg_days w)"
    and ex: "dayNumber (e_date entry_may_1) = days_from_civil 2024 5 1 \<and>
             dayNumber (e_date entry_may_3) = days_from_civil 2024 5 3 \<longrightarrow>
             (\<exists>w. groupEntriesByWeek [entry_may_1, entry_may_3] = [w] \<and>
                  map dg_date (wg_days w) = [e_date entry_may_3, e_date entry_may_1])"
    by blast+
  from ex d1 d3 may_2024_days obtain w where
    w: "groupEntriesByWeek [entry_may_1, entry_may_3] = [w]"
       "map dg_date (wg_days w) = [e_date entry_may_3, e_date entry_may_1]"
    by auto
  have "map (\<lambda>d. civil_from_days (dayNumber (dg_date d))) (wg_days w) =
     map (\<lambda>t. civil_from_days (dayNumber t)) (map dg_date (wg_days w))"
    by (simp add: comp_def)
  then have "map (\<lambda>d. civil_from_days (dayNumber (dg_date d))) (wg_days w) =
     map (\<lambda>t. civil_from_days (dayNumber t)) [e_date entry_may_3, e_date entry_may_1]"
    unfolding w(2) .
  then have "map (\<lambda>d. civil_from_days (dayNumber (dg_date d))) (wg_days w) = [(2024, 5, 3), (2024, 5, 1)]"
    using d1 d3 may_2024_days by simp
  with w(1) desc mem d1 d3 may_2024_days show ?thesis
    by simp
qed

section \<open>Properties of the monthly aggregation\<close>

lemma NaN_plus [simp]: "NaN + x = NaN" "x + NaN = NaN"
  by (cases x; simp)+

lemma num_mul_NaN [simp]: "num_mul NaN x = NaN"
  by (cases x) simp_all

lemma num_sub_NaN [simp]: "num_sub NaN x = NaN" "num_sub x NaN = NaN"
  by (simp_all add: num_sub_def)

lemma num_div_NaN [simp]: "num_div NaN x = NaN"
  by (cases x) simp_all

lemma num_less_NaN [simp]: "\<not> num_less NaN x"
  by (cases x) simp_all

lemma calculateDuration_unparseable:
  assumes "unparseable start \<or> unparseable end"
  shows "calculateDuration start end = NaN"
proof -
  have "num_sub (num_mul (element (components end) 0) (Fin 60) + element (components end) 1)
          (num_mul (element (components start) 0) (Fin 60) + element (components start) 1) = NaN"
    using assms unfolding unparseable_def by auto
  then show ?thesis
    by (simp add: calculateDuration_def components_def Let_def)
qed

lemma getDurationInHours_unparseable:
  assumes "unparseable start \<or> unparseable end"
  shows "getDurationInHours start end = NaN"
proof -
  have "num_sub (num_mul (element (components end) 0) (Fin 60) + element (components end) 1)
          (num_mul (element (components start) 0) (Fin 60) + element (components start) 1) = NaN"
    using assms unfolding unparseable_def by auto
  then show ?thesis
    by (simp add: getDurationInHours_def components_def Let_def)
qed

lemma foldl_NaN_start: "foldl (\<lambda>acc x. acc + f x) NaN xs = NaN"
  by (induction xs) simp_all

lemma foldl_NaN_member:
  "x \<in> set xs \<Longrightarrow> f x = NaN \<Longrightarrow> foldl (\<lambda>acc x. acc + f x) a xs = NaN"
  by (induction xs arbitrary: a) (auto simp: foldl_NaN_start)

lemma monthlyData_nth:
  assumes "0 \<le> m" and "m < 12"
  shows "monthlyData (processedData year available selected flt entries projects
            licenses servers domains) ! nat m =
         monthData (yearEntries entries year (activeProjectIds available selected) flt)
            projects licenses servers domains (newDate year 0 1)
            (activeProjectIds available selected) flt m
         \<and> nat m < length (monthlyData (processedData year available selected flt entries projects
            licenses servers domains))"
proof -
  from assms have "m \<in> {0, 1, 2, 3, 4, 5, 6, 7, 8, 9, 10, 11}"
    by simp arith
  then show ?thesis
    by (auto simp: processedData_def Let_def)
qed

text \<open>
  C1, as stated, fails.  The end time "--:--" has no parseable component: the duration is
  \<open>NaN\<close>, not the value that zero components would give, and the total hours and the total
  amount of March and both grand totals are \<open>NaN\<close>.
\<close>

theorem duration_nan_counterexample:
  "calculateDuration ''09:00'' ''--:--'' = NaN \<and>
   getDurationInHours ''09:00'' ''--:--'' = NaN \<and>
   e_startTime entry_march_malformed = ''09:00'' \<and> e_endTime entry_march_malformed = ''--:--'' \<and>
   md_totalHours (monthlyData (march_report [entry_march_malformed]) ! 2) = NaN \<and>
   md_totalAmount (monthlyData (march_report [entry_march_malformed]) ! 2) = NaN \<and>
   grandTotalHours (march_report [entry_march_malformed]) = NaN \<and>
   grandTotalAmount (march_report [entry_march_malformed]) = NaN"
  by code_simp

text \<open>
  C1, amended.  When a component of the start or of the end time does not parse as a
  number, the duration is \<open>NaN\<close> in minutes and in hours (the component is not taken as
  zero); and when such an entry passes the year, project and invoice filters, the total
  hours of its month and the grand total of hours are \<open>NaN\<close>.
\<close>

theorem unparseable_duration_propagates:
  assumes bad: "unparseable (e_startTime e) \<or> unparseable (e_endTime e)"
    and sel: "e \<in> set (yearEntries entries year (activeProjectIds available selected) flt)"
    and month: "getMonth (e_date e) = m" "0 \<le> m" "m < 12"
  shows "calculateDuration (e_startTime e) (e_endTime e) = NaN \<and>
         getDurationInHours (e_startTime e) (e_endTime e) = NaN \<and>
         md_totalHours (monthlyData (processedData year available selected flt entries projects
            licenses servers domains) ! nat m) = NaN \<and>
         grandTotalHours (processedData year available selected flt entries projects
            licenses servers domains) = NaN"
proof -
  let ?pd = "processedData year available selected flt entries projects licenses servers domains"
  let ?ye = "yearEntries entries year (activeProjectIds available selected) flt"
  have hours: "getDurationInHours (e_startTime e) (e_endTime e) = NaN"
    using bad by (rule getDurationInHours_unparseable)
  have nth: "monthlyData ?pd ! nat m =
      monthData ?ye projects licenses servers domains (newDate year 0 1)
        (activeProjectIds available selected) flt m"
    and len: "nat m < length (monthlyData ?pd)"
    using monthlyData_nth[OF month(2,3)] by blast+
  have "e \<in> set (filter (\<lambda>e. getMonth (e_date e) = m) ?ye)"
    using sel month(1) by simp
  then have total: "md_totalHours (monthlyData ?pd ! nat m) = NaN"
    unfolding nth monthData_def Let_def using hours
    by (simp add: foldl_NaN_member[where f = "\<lambda>entry. getDurationInHours (e_startTime entry) (e_endTime entry)"])
  have "monthlyData ?pd ! nat m \<in> set (monthlyData ?pd)"
    using len by (rule nth_mem)
  then have "foldl (\<lambda>acc m. acc + md_totalHours m) 0 (monthlyData ?pd) = NaN"
    using total by (rule foldl_NaN_member)
  then have grand: "grandTotalHours ?pd = NaN"
    by (simp add: processedData_def Let_def)
  from calculateDuration_unparseable[OF bad] hours total grand show ?thesis
    by simp
qed

lemma malformed_selected:
  "unparseable (e_endTime entry_march_malformed) \<and>
   entry_march_malformed \<in> set (yearEntries [entry_march_malformed] 2024
      (activeProjectIds (availableProjects ''all'' [project_website] []) [''p1'']) All) \<and>
   getMonth (e_date entry_march_malformed) = 2"
  by code_simp

theorem unparseable_duration_propagates_witness:
  "unparseable (e_endTime entry_march_malformed) \<and>
   entry_march_malformed \<in> set (yearEntries [entry_march_malformed] 2024
      (activeProjectIds (availableProjects ''all'' [project_website] []) [''p1'']) All) \<and>
   getMonth (e_date entry_march_malformed) = 2 \<and>
   md_totalHours (monthlyData (march_report [entry_march_malformed]) ! 2) = NaN \<and>
   grandTotalHours (march_report [entry_march_malformed]) = NaN"
proof -
  have bad: "unparseable (e_startTime entry_march_malformed) \<or>
             unparseable (e_endTime entry_march_malformed)"
    using malformed_selected by blast
  have sel: "entry_march_malformed \<in> set (yearEntries [entry_march_malformed] 2024
      (activeProjectIds (availableProjects ''all'' [project_website] []) [''p1'']) All)"
    using malformed_selected by blast
  have month: "getMonth (e_date entry_march_malformed) = 2"
    using malformed_selected by blast
  have two: "nat 2 = 2"
    by simp
  show ?thesis
    using unparseable_duration_propagates[OF bad sel month, of "[project_website]" "[]" "[]" "[]"]
      malformed_selected
    unfolding march_report_def two by simp
qed

text \<open>
  C2.  An entry with no billable flag, two hours long, on a project with an hourly rate of
  50: it counts for two hours, and the month's \<open>hoursAmount\<close> is 0, where the claim, with
  the flag defaulting to true, gives 100.  The same entry with the flag set gives 100.
\<close>

theorem hoursAmount_unflagged_entry:
  "e_billable entry_march_unflagged = None \<and>
   md_totalHours (monthlyData (march_report [entry_march_unflagged]) ! 2) = Fin 2 \<and>
   md_hoursAmount (monthlyData (march_report [entry_march_unflagged]) ! 2) = Fin 0 \<and>
   md_hoursAmount (monthlyData (march_report [entry_march]) ! 2) = Fin 100"
  by code_simp

lemma activeProjectIds_set:
  "set (activeProjectIds available selected) = set selected \<inter> p_id ` set available"
  by (auto simp: activeProjectIds_def Let_def)

lemma filter_inside:
  "filter (\<lambda>x. Q x \<and> P x \<and> R x) (filter P xs) = filter (\<lambda>x. Q x \<and> P x \<and> R x) xs"
  by (induction xs) simp_all

lemma yearEntries_inside:
  "yearEntries (filter (\<lambda>e. e_project e \<in> set ids) entries) year ids flt =
   yearEntries entries year ids flt"
  unfolding yearEntries_def Let_def
  by (rule filter_inside[where P = "\<lambda>e. e_project e \<in> set ids"])

lemma costAmount_inside:
  "costAmount (filter (\<lambda>c. c_project c \<in> set ids) items) month yearStart ids flt =
   costAmount items month yearStart ids flt"
  unfolding costAmount_def Let_def
  by (simp only: filter_inside[where P = "\<lambda>c. c_project c \<in> set ids"])

text \<open>
  C3.  For every chosen set of project ids and every client selector, the active ids are
  the chosen ids that are ids of available projects, hence a subset of those; and the
  monthly data and the grand totals are the same when every time entry and every cost
  item whose project is not an active id is removed from the input.
\<close>

theorem activeProjectIds_scope_totals:
  "set (activeProjectIds (availableProjects selectedClientId projects clients) selected) =
     set selected \<inter> p_id ` set (availableProjects selectedClientId projects clients) \<and>
   set (activeProjectIds (availableProjects selectedClientId projects clients) selected)
     \<subseteq> p_id ` set (availableProjects selectedClientId projects clients) \<and>
   processedData year (availableProjects selectedClientId projects clients) selected flt
     (filter (\<lambda>e. e_project e \<in>
        set (activeProjectIds (availableProjects selectedClientId projects clients) selected)) entries)
     projects
     (filter (\<lambda>c. c_project c \<in>
        set (activeProjectIds (availableProjects selectedClientId projects clients) selected)) licenses)
     (filter (\<lambda>c. c_project c \<in>
        set (activeProjectIds (availableProjects selectedClientId projects clients) selected)) servers)
     (filter (\<lambda>c. c_project c \<in>
        set (activeProjectIds (availableProjects selectedClientId projects clients) selected)) domains) =
   processedData year (availableProjects selectedClientId projects clients) selected flt
     entries projects licenses servers domains"
proof -
  let ?avail = "availableProjects selectedClientId projects clients"
  have 1: "set (activeProjectIds ?avail selected) = set selected \<inter> p_id ` set ?avail"
    by (rule activeProjectIds_set)
  then have 2: "set (activeProjectIds ?avail selected) \<subseteq> p_id ` set ?avail"
    by blast
  have 3: "processedData year ?avail selected flt
     (filter (\<lambda>e. e_project e \<in> set (activeProjectIds ?avail selected)) entries) projects
     (filter (\<lambda>c. c_project c \<in> set (activeProjectIds ?avail selected)) licenses)
     (filter (\<lambda>c. c_project c \<in> set (activeProjectIds ?avail selected)) servers)
     (filter (\<lambda>c. c_project c \<in> set (activeProjectIds ?avail selected)) domains) =
   processedData year ?avail selected flt entries projects licenses servers domains"
    unfolding processedData_def monthData_def Let_def
    by (simp only: yearEntries_inside costAmount_inside)
  from 1 2 3 show ?thesis
    by blast
qed

lemma stale_selection:
  "availableProjects ''c1'' [project_website, project_portal] [client_acme] = [project_website] \<and>
   activeProjectIds [project_website] [''p1'', ''p4''] = [''p1''] \<and>
   filter (\<lambda>e. e_project e \<in> set [''p1'']) [entry_march, entry_march_portal] = [entry_march] \<and>
   grandTotalHours (processedData 2024 [project_website] [''p1'', ''p4''] All [entry_march]
      [project_website, project_portal] [] [] []) = Fin 2"
  by code_simp

theorem activeProjectIds_scope_totals_witness:
  "activeProjectIds (availableProjects ''c1'' [project_website, project_portal] [client_acme])
     [''p1'', ''p4''] = [''p1''] \<and>
   grandTotalHours (processedData 2024
     (availableProjects ''c1'' [project_website, project_portal] [client_acme]) [''p1'', ''p4'']
     All [entry_march, entry_march_portal] [project_website, project_portal] [] [] []) = Fin 2"
proof -
  have av: "availableProjects ''c1'' [project_website, project_portal] [client_acme] =
            [project_website]"
    and ac: "activeProjectIds [project_website] [''p1'', ''p4''] = [''p1'']"
    and fe: "filter (\<lambda>e. e_project e \<in> set [''p1'']) [entry_march, entry_march_portal] =
             [entry_march]"
    and total: "grandTotalHours (processedData 2024 [project_website] [''p1'', ''p4''] All
      [entry_march] [project_website, project_portal] [] [] []) = Fin 2"
    using stale_selection by blast+
  have "processedData 2024 [project_website] [''p1'', ''p4''] All
          [entry_march] [project_website, project_portal] [] [] [] =
        processedData 2024 [project_website] [''p1'', ''p4''] All
          [entry_march, entry_march_portal] [project_website, project_portal] [] [] []"
    using activeProjectIds_scope_totals[of "''c1''" "[project_website, project_portal]"
        "[client_acme]" "[''p1'', ''p4'']" 2024 All "[entry_march, entry_march_portal]" "[]" "[]" "[]"]
    unfolding av ac fe filter.simps(1) by (rule conjunct2[OF conjunct2])
  with total have "grandTotalHours (processedData 2024 [project_website] [''p1'', ''p4''] All
      [entry_march, entry_march_portal] [project_website, project_portal] [] [] []) = Fin 2"
    by (simp only:)
  with ac show ?thesis
    unfolding av by (rule conjI)
qed

section \<open>Properties of the available projects\<close>

text \<open>
  C7.  With the client name "zzz", which sorts after the stand-in "zz" of a project with no
  client, the available projects are sorted, and the project with no client comes before
  the project of client "zzz", where the claim puts every project with no client after
  every project that has one.
\<close>

theorem availableProjects_client_after_no_client:
  "availableProjects ''all'' [project_zzz, project_internal, project_website] [] =
     [project_website, project_internal, project_zzz] \<and>
   p_client project_internal = None \<and> p_client project_zzz = Some ''zzz''"
  by code_simp

lemma availableProjects_heap_value:
  "h_arrays (snd (availableProjects_heap selectedClientId projects clients h))
     (fst (availableProjects_heap selectedClientId projects clients h)) =
   availableProjects selectedClientId (h_arrays h projects) clients"
  by (simp add: availableProjects_heap_def availableProjects_def heap_filter_def heap_new_def
      heap_sort_def Let_def split: option.splits)

lemma availableProjects_heap_frame:
  assumes "selectedClientId \<noteq> ''all''" and "projects < h_next h"
  shows "h_arrays (snd (availableProjects_heap selectedClientId projects clients h)) projects =
         h_arrays h projects"
  using assms
  by (simp add: availableProjects_heap_def heap_filter_def heap_new_def
      heap_sort_def Let_def split: option.splits)

lemma availableProjects_heap_all:
  "availableProjects_heap ''all'' projects clients h =
     (projects, h\<lparr>h_arrays := (h_arrays h)(projects := array_sort projectCompare (h_arrays h projects))\<rparr>)"
  by (simp add: availableProjects_heap_def heap_sort_def)

text \<open>
  C8.  With the selector \<open>all\<close> the array returned is the caller's array of projects, and
  after the call that array holds its projects in sorted order: the input is changed.
\<close>

theorem availableProjects_sorts_callers_array:
  "h_arrays unsorted_store 0 = [project_zzz, project_website] \<and>
   fst (availableProjects_heap ''all'' 0 [] unsorted_store) = 0 \<and>
   h_arrays (snd (availableProjects_heap ''all'' 0 [] unsorted_store)) 0 =
     [project_website, project_zzz]"
  by code_simp

section \<open>Properties of the ledger export\<close>

text \<open>
  C9.  With the clients "Acme" and "Acme Corp" the export writes the block of "Acme Corp"
  before the block of "Acme", although "Acme" comes first in the order of the keys: the
  pairs are sorted as strings, key, comma and value, and a space sorts before a comma.
\<close>

theorem handleExport_prefix_client_first:
  "map cb_name (lg_clients (handleExport 2024 All [entry_march, entry_march_portal]
      [project_website, project_portal] two_clients_report)) = [''Acme Corp'', ''Acme''] \<and>
   codeUnitCompare ''Acme'' ''Acme Corp'' = - 1"
  by code_simp

end
